theory Spec2Isabelle
  imports Main "HOL-Library.Sublist" "HOL-Library.Word"
begin

section \<open>Template loading (v2/internal/runner/templates.go)\<close>

subsection \<open>Strings\<close>

text \<open>
  Go strings are byte sequences; they are modelled as \<^typ>\<open>string\<close> (a list of 8-bit
  characters).  \<open>strings.Contains s ","\<close> is \<open>CHR '','' \<in> set s\<close>, \<open>strings.HasPrefix a b\<close> is
  \<open>prefix b a\<close>.  \<open>strings.ToLower\<close> is a function of Go's standard library; the loader takes
  it as a parameter \<open>ToLower\<close>, so that every theorem below holds for Go's own Unicode-aware
  function.  \<open>ascii_ToLower\<close> is that function on ASCII input, used to run the model.
\<close>

definition comma :: char where
  "comma = CHR '',''"

text \<open>
  \<open>strings.Split s sep\<close> for a one-byte separator: the pieces of \<open>s\<close> between the separators,
  empty pieces included, so that there is always one piece more than there are separators.
\<close>

fun strings_Split :: "string \<Rightarrow> char \<Rightarrow> string list" where
  "strings_Split [] sep = [[]]"
| "strings_Split (c # cs) sep =
     (if c = sep then [] # strings_Split cs sep
      else (case strings_Split cs sep of
              [] \<Rightarrow> [[c]]
            | w # ws \<Rightarrow> (c # w) # ws))"

definition ascii_lower_char :: "char \<Rightarrow> char" where
  "ascii_lower_char c =
     (case map_of (zip ''ABCDEFGHIJKLMNOPQRSTUVWXYZ'' ''abcdefghijklmnopqrstuvwxyz'') c of
        None \<Rightarrow> c
      | Some d \<Rightarrow> d)"

definition ascii_ToLower :: "string \<Rightarrow> string" where
  "ascii_ToLower s = map ascii_lower_char s"

subsection \<open>hasMatchingSeverity\<close>

text \<open>
  The inner loop of \<open>hasMatchingSeverity\<close>, over the components \<open>finalSeverities\<close> of one
  allowed entry: it returns at the first component that, lowercased, is non-empty and a prefix
  of the template's severity.
\<close>

fun matchesFinalSeverities :: "(string \<Rightarrow> string) \<Rightarrow> string \<Rightarrow> string list \<Rightarrow> bool" where
  "matchesFinalSeverities ToLower templateSeverity [] = False"
| "matchesFinalSeverities ToLower templateSeverity (sev # rest) =
     (let sev' = ToLower sev in
      if sev' \<noteq> [] \<and> prefix sev' templateSeverity then True
      else matchesFinalSeverities ToLower templateSeverity rest)"

text \<open>The components of one allowed entry: split at commas when it has one, itself otherwise.\<close>

definition finalSeverities :: "string \<Rightarrow> string list" where
  "finalSeverities s =
     (if comma \<in> set s then strings_Split s comma else [] @ [s])"

fun hasMatchingSeverity :: "(string \<Rightarrow> string) \<Rightarrow> string \<Rightarrow> string list \<Rightarrow> bool" where
  "hasMatchingSeverity ToLower templateSeverity [] = False"
| "hasMatchingSeverity ToLower templateSeverity (s # allowedSeverities) =
     (if matchesFinalSeverities ToLower templateSeverity (finalSeverities s) then True
      else hasMatchingSeverity ToLower templateSeverity allowedSeverities)"

subsection \<open>Templates, the runner's collaborators and the loader's state\<close>

text \<open>
  \<open>TemplateType\<close> is a \<open>uint16\<close> with three named values (\<open>iota\<close> numbers them 0, 1, 2);
  any other value is a legal argument too.
\<close>

type_synonym TemplateType = "16 word"

definition Template :: TemplateType where
  "Template = 0"

definition Workflows :: TemplateType where
  "Workflows = 1"

definition AdvancedWorkflow :: TemplateType where
  "AdvancedWorkflow = 2"

text \<open>
  The fields of \<open>templates.Template\<close> that the loader reads.  \<open>Info\<close> is a
  \<open>map[string]interface{}\<close>: a missing key and a nil value both read as \<open>None\<close>.  The field
  \<open>Workflows\<close> is named \<open>Workflows_field\<close>, since \<open>Workflows\<close> is the template type above.
\<close>

record ('v, 'w) template =
  ID :: string
  Info :: "string \<rightharpoonup> 'v"
  Workflows_field :: "'w list"
  Code :: string

text \<open>
  What the loader calls and \<open>templates.go\<close> does not define: \<open>templates.Parse\<close> (with the runner's
  executer options already applied; it returns a template pointer and an error, either of which
  may be nil), \<open>types.ToString\<close> and \<open>strings.ToLower\<close>.  Parsing is taken to be a function of the
  path: the files do not change during one loading pass.
\<close>

record ('e, 'v, 'w) Runner =
  templates_Parse :: "string \<Rightarrow> ('v, 'w) template option \<times> 'e option"
  types_ToString :: "'v option \<Rightarrow> string"
  strings_ToLower :: "string \<Rightarrow> string"

text \<open>The lines \<open>gologger\<close> writes, by level and message, with the message's arguments.\<close>

datatype 'e log_entry =
    Info_Loading_advanced_workflows
  | Info_Loading_workflows
  | Info_Loading_templates
  | Warning_Could_not_parse_file string 'e
  | Info_templateLogMsg string string string string
  | Warning_Excluding_template string string "string list"

text \<open>
  The loader's variables: the two results and the log.  \<open>workflowCount\<close> is a Go \<open>int\<close>; it is
  incremented at most once per path, so it never overflows and is modelled as a natural number.
\<close>

record ('e, 'v, 'w) loader =
  parsedTemplates :: "string \<rightharpoonup> ('v, 'w) template"
  workflowCount :: nat
  logged :: "'e log_entry list"

subsection \<open>parseTemplateFile and getParsedTemplatesFor\<close>

definition parseTemplateFile ::
  "('e, 'v, 'w) Runner \<Rightarrow> string \<Rightarrow> 'e + ('v, 'w) template option" where
  "parseTemplateFile r file =
     (case templates_Parse r file of
        (tmpl, Some err) \<Rightarrow> Inl err
      | (None, None) \<Rightarrow> Inr None
      | (Some tmpl, None) \<Rightarrow> Inr (Some tmpl))"

text \<open>Lines 66 to 72: the severity filter, the store into the map and the two log lines.\<close>

definition storeBySeverity ::
  "('e, 'v, 'w) Runner \<Rightarrow> string list \<Rightarrow> ('v, 'w) template \<Rightarrow> ('e, 'v, 'w) loader
     \<Rightarrow> ('e, 'v, 'w) loader" where
  "storeBySeverity r severities t st =
     (let filterBySeverity = (length severities > 0);
          sev = strings_ToLower r (types_ToString r (Info t ''severity''))
      in if \<not> filterBySeverity \<or> hasMatchingSeverity (strings_ToLower r) sev severities
         then st\<lparr>parsedTemplates := (parsedTemplates st)(ID t \<mapsto> t),
                 logged := logged st @
                   [Info_templateLogMsg (ID t) (types_ToString r (Info t ''name''))
                      (types_ToString r (Info t ''author'')) sev]\<rparr>
         else st\<lparr>logged := logged st @ [Warning_Excluding_template (ID t) sev severities]\<rparr>)"

text \<open>
  The body of the loop over \<open>templatePaths\<close>; every \<open>continue\<close> returns the state as it is.
  The \<open>switch\<close> has no default: a template type other than the three named ones filters nothing.
\<close>

definition loadTemplate ::
  "('e, 'v, 'w) Runner \<Rightarrow> string list \<Rightarrow> TemplateType \<Rightarrow> string \<Rightarrow> ('e, 'v, 'w) loader
     \<Rightarrow> ('e, 'v, 'w) loader" where
  "loadTemplate r severities templateType match st =
     (case parseTemplateFile r match of
        Inl err \<Rightarrow> st\<lparr>logged := logged st @ [Warning_Could_not_parse_file match err]\<rparr>
      | Inr None \<Rightarrow> st
      | Inr (Some t) \<Rightarrow>
          if templateType = AdvancedWorkflow then
            (if Code t = [] then st
             else storeBySeverity r severities t (st\<lparr>workflowCount := workflowCount st + 1\<rparr>))
          else if templateType = Workflows then
            (if length (Workflows_field t) = 0 then st
             else storeBySeverity r severities t (st\<lparr>workflowCount := workflowCount st + 1\<rparr>))
          else if templateType = Template then
            (if length (Workflows_field t) > 0 \<or> Code t \<noteq> [] then st
             else storeBySeverity r severities t st)
          else storeBySeverity r severities t st)"

fun loadTemplates ::
  "('e, 'v, 'w) Runner \<Rightarrow> string list \<Rightarrow> TemplateType \<Rightarrow> string list \<Rightarrow> ('e, 'v, 'w) loader
     \<Rightarrow> ('e, 'v, 'w) loader" where
  "loadTemplates r severities templateType [] st = st"
| "loadTemplates r severities templateType (match # rest) st =
     loadTemplates r severities templateType rest
       (loadTemplate r severities templateType match st)"

definition getParsedTemplatesFor ::
  "('e, 'v, 'w) Runner \<Rightarrow> string list \<Rightarrow> string list \<Rightarrow> TemplateType \<Rightarrow> ('e, 'v, 'w) loader" where
  "getParsedTemplatesFor r templatePaths severities templateType =
     loadTemplates r severities templateType templatePaths
       \<lparr>parsedTemplates = Map.empty,
        workflowCount = 0,
        logged = [if templateType = AdvancedWorkflow then Info_Loading_advanced_workflows
                  else if templateType = Workflows then Info_Loading_workflows
                  else Info_Loading_templates]\<rparr>"

subsection \<open>The loader's filters, stated on their own\<close>

text \<open>
  The following definitions are not part of the loader: they say, in one place each, what the
  loop's \<open>switch\<close> and its severity test let through, which paths count as workflows, and what the
  loop stores.  The theorems below relate \<open>getParsedTemplatesFor\<close> to them.
\<close>

definition typeFilter :: "TemplateType \<Rightarrow> ('v, 'w) template \<Rightarrow> bool" where
  "typeFilter templateType t =
     (if templateType = AdvancedWorkflow then Code t \<noteq> []
      else if templateType = Workflows then Workflows_field t \<noteq> []
      else if templateType = Template then Workflows_field t = [] \<and> Code t = []
      else True)"

definition severityFilter :: "('e, 'v, 'w) Runner \<Rightarrow> string list \<Rightarrow> ('v, 'w) template \<Rightarrow> bool" where
  "severityFilter r severities t =
     (severities = [] \<or>
      hasMatchingSeverity (strings_ToLower r)
        (strings_ToLower r (types_ToString r (Info t ''severity''))) severities)"

text \<open>The template a path contributes: it parses, and passes both filters.\<close>

definition accepted ::
  "('e, 'v, 'w) Runner \<Rightarrow> string list \<Rightarrow> TemplateType \<Rightarrow> string \<Rightarrow> ('v, 'w) template option" where
  "accepted r severities templateType path =
     (case parseTemplateFile r path of
        Inr (Some t) \<Rightarrow>
          if typeFilter templateType t \<and> severityFilter r severities t then Some t else None
      | _ \<Rightarrow> None)"

text \<open>A path whose template is of the requested workflow kind, whatever its severity.\<close>

definition countedWorkflow :: "('e, 'v, 'w) Runner \<Rightarrow> TemplateType \<Rightarrow> string \<Rightarrow> bool" where
  "countedWorkflow r templateType path =
     (case parseTemplateFile r path of
        Inr (Some t) \<Rightarrow>
          (templateType = AdvancedWorkflow \<and> Code t \<noteq> []) \<or>
          (templateType = Workflows \<and> Workflows_field t \<noteq> [])
      | _ \<Rightarrow> False)"

text \<open>The entries the loop stores, in path order.\<close>

fun storedEntries ::
  "('e, 'v, 'w) Runner \<Rightarrow> string list \<Rightarrow> TemplateType \<Rightarrow> string list
     \<Rightarrow> (string \<times> ('v, 'w) template) list" where
  "storedEntries r severities templateType [] = []"
| "storedEntries r severities templateType (p # paths) =
     (case accepted r severities templateType p of
        None \<Rightarrow> storedEntries r severities templateType paths
      | Some t \<Rightarrow> (ID t, t) # storedEntries r severities templateType paths)"

subsection \<open>A small template directory to run the loader on\<close>

definition demo_ToString :: "string option \<Rightarrow> string" where
  "demo_ToString v = (case v of None \<Rightarrow> [] | Some s \<Rightarrow> s)"

definition demo_template ::
  "string \<Rightarrow> string \<Rightarrow> string \<Rightarrow> nat list \<Rightarrow> string \<Rightarrow> (string, nat) template" where
  "demo_template i name sev ws c =
     \<lparr>ID = i, Info = [''severity'' \<mapsto> sev, ''name'' \<mapsto> name], Workflows_field = ws, Code = c\<rparr>"

definition demo_Parse :: "string \<Rightarrow> (string, nat) template option \<times> string option" where
  "demo_Parse file =
     (if file = ''git-config.yaml'' then
        (Some (demo_template ''git-config'' ''Git config'' ''Medium'' [] []), None)
      else if file = ''copy-of-git-config.yaml'' then
        (Some (demo_template ''git-config'' ''Edited copy'' ''Medium'' [] []), None)
      else if file = ''rce.yaml'' then
        (Some (demo_template ''rce'' ''RCE'' ''CRITICAL'' [] []), None)
      else if file = ''wordpress-workflow.yaml'' then
        (Some (demo_template ''wordpress-workflow'' ''WP'' ''info'' [1, 2] []), None)
      else if file = ''advanced.yaml'' then
        (Some (demo_template ''advanced'' ''Adv'' ''low'' [] ''print(1)''), None)
      else if file = ''broken.yaml'' then (None, Some ''yaml: line 3: mapping values'')
      else if file = ''empty.yaml'' then (None, None)
      else (None, Some ''no such file''))"

definition demo_Runner :: "(string, string, nat) Runner" where
  "demo_Runner =
     \<lparr>templates_Parse = demo_Parse, types_ToString = demo_ToString,
      strings_ToLower = ascii_ToLower\<rparr>"

section \<open>The Match Expression Evaluator\<close>

text \<open>
  The sources hold the template loader only; the evaluator of section 4.2 of the
  specification is written here from the specification's words.
\<close>

text \<open>
  Modelled from the spec: the Response View of section 3, missing from the sources, "normalized
  read-only snapshot of one request/response exchange: status/code, named parts (body,
  headers/records, raw), byte length".  The elapsed time and the original request are left
  out: no evaluator reads them.
\<close>

record response_view =
  status :: nat
  parts :: "string \<rightharpoonup> string"
  byte_length :: nat

text \<open>
  Modelled from the spec: the combinator of a Matcher and of a Request Block, missing from the
  sources, "AND/OR".
\<close>

datatype combinator = Combine_AND | Combine_OR

text \<open>
  Modelled from the spec: the Matcher of section 3, missing from the sources, "target part,
  list of conditions, negate flag, internal combinator (AND/OR, default OR)".  The kind of a
  matcher (word, regex, status, ...) fixes how one condition is compared with the part; that
  comparison is the evaluator's parameter \<open>matches\<close>, over any type \<open>'c\<close> of conditions.
\<close>

record 'c Matcher =
  matcher_name :: string
  part :: string
  conditions :: "'c list"
  negate :: bool
  condition_combinator :: combinator

text \<open>
  Modelled from the spec: the internal combinator of a matcher, missing from the sources, "AND
  requires all conditions true; OR requires at least one".
\<close>

definition conditions_hold ::
  "('c \<Rightarrow> string \<Rightarrow> bool) \<Rightarrow> combinator \<Rightarrow> 'c list \<Rightarrow> string \<Rightarrow> bool" where
  "conditions_hold matches comb cs p =
     (case comb of
        Combine_AND \<Rightarrow> list_all (\<lambda>c. matches c p) cs
      | Combine_OR \<Rightarrow> list_ex (\<lambda>c. matches c p) cs)"

text \<open>
  Modelled from the spec: the evaluation of one matcher, missing from the sources, "extract the
  named part from the Response View (an unknown/unsupported part is a configuration error,
  short-circuits that matcher as non-firing), then evaluate its conditions against its internal
  combinator [...]. Apply negate after combinator evaluation", under the invariant of section 3,
  "a Matcher with zero conditions never fires".
\<close>

definition matcher_fires ::
  "('c \<Rightarrow> string \<Rightarrow> bool) \<Rightarrow> 'c Matcher \<Rightarrow> response_view \<Rightarrow> bool" where
  "matcher_fires matches m rv =
     (case parts rv (part m) of
        None \<Rightarrow> False
      | Some p \<Rightarrow>
          if conditions m = [] then False
          else (let result = conditions_hold matches (condition_combinator m) (conditions m) p
                in if negate m then \<not> result else result))"

text \<open>
  Modelled from the spec: the pass over the matchers of a Request Block, missing from the
  sources, "evaluation order is the declaration order of matchers": each matcher is evaluated
  in turn, its result is recorded, and the name of a matcher that fired is added at the end of
  the names found so far.
\<close>

record evaluation =
  fired :: bool
  matchedNames :: "string list"

fun evaluate_each ::
  "('c \<Rightarrow> string \<Rightarrow> bool) \<Rightarrow> 'c Matcher list \<Rightarrow> response_view \<Rightarrow> bool list \<times> string list
     \<Rightarrow> bool list \<times> string list" where
  "evaluate_each matches [] rv (results, names) = (results, names)"
| "evaluate_each matches (m # ms) rv (results, names) =
     (if matcher_fires matches m rv
      then evaluate_each matches ms rv (results @ [True], names @ [matcher_name m])
      else evaluate_each matches ms rv (results @ [False], names))"

text \<open>
  Modelled from the spec: \<open>evaluate(matchers, combinator, responseView)\<close> of section 4.2, missing
  from the sources, "aggregate all Matchers in the Request Block using the block-level combinator
  (AND/OR)"; it returns \<open>(fired, matchedNames)\<close>.
\<close>

definition evaluate_matchers ::
  "('c \<Rightarrow> string \<Rightarrow> bool) \<Rightarrow> 'c Matcher list \<Rightarrow> combinator \<Rightarrow> response_view \<Rightarrow> evaluation" where
  "evaluate_matchers matches matchers comb rv =
     (case evaluate_each matches matchers rv ([], []) of
        (results, names) \<Rightarrow>
          \<lparr>fired = (case comb of
                      Combine_AND \<Rightarrow> list_all (\<lambda>b. b) results
                    | Combine_OR \<Rightarrow> list_ex (\<lambda>b. b) results),
           matchedNames = names\<rparr>)"

subsection \<open>Word matchers on a small response, to run the evaluator on\<close>

text \<open>A word condition matches a part that contains the word.\<close>

fun contains_word :: "string \<Rightarrow> string \<Rightarrow> bool" where
  "contains_word w [] = (w = [])"
| "contains_word w (c # cs) = (prefix w (c # cs) \<or> contains_word w cs)"

definition demo_response :: response_view where
  "demo_response =
     \<lparr>status = 200,
      parts = [''body'' \<mapsto> ''phpMyAdmin: Welcome, admin'',
               ''header'' \<mapsto> ''Server: nginx''],
      byte_length = 26\<rparr>"

definition word_matcher ::
  "string \<Rightarrow> string \<Rightarrow> string list \<Rightarrow> bool \<Rightarrow> combinator \<Rightarrow> string Matcher" where
  "word_matcher n p ws neg comb =
     \<lparr>matcher_name = n, part = p, conditions = ws, negate = neg, condition_combinator = comb\<rparr>"

section \<open>Properties of the template loader\<close>

subsection \<open>Splitting at commas\<close>

lemma strings_Split_not_Nil: "strings_Split s sep \<noteq> []"
  by (induction s) (auto split: list.splits)

lemma strings_Split_no_separator: "sep \<notin> set s \<Longrightarrow> strings_Split s sep = [s]"
  by (induction s) (auto split: list.splits)

text \<open>Gluing the pieces back with the separator gives the string: nothing is lost or added.\<close>

lemma concat_strings_Split:
  "concat (map (\<lambda>w. w @ [sep]) (strings_Split s sep)) = s @ [sep]"
  by (induction s) (auto split: list.splits)

lemma strings_Split_pieces: "w \<in> set (strings_Split s sep) \<Longrightarrow> sep \<notin> set w"
  by (induction s arbitrary: w) (auto split: list.splits if_splits)

lemma finalSeverities_eq: "finalSeverities s = strings_Split s comma"
  by (simp add: finalSeverities_def strings_Split_no_separator)

lemma matchesFinalSeverities_iff:
  "matchesFinalSeverities ToLower templateSeverity components \<longleftrightarrow>
     (\<exists>c \<in> set components. ToLower c \<noteq> [] \<and> prefix (ToLower c) templateSeverity)"
  by (induction components) (auto simp: Let_def)

lemma hasMatchingSeverity_components:
  "hasMatchingSeverity ToLower templateSeverity allowedSeverities \<longleftrightarrow>
     (\<exists>s \<in> set allowedSeverities. \<exists>c \<in> set (strings_Split s comma).
        ToLower c \<noteq> [] \<and> prefix (ToLower c) templateSeverity)"
  by (induction allowedSeverities)
     (auto simp: matchesFinalSeverities_iff finalSeverities_eq)

lemma hasMatchingSeverity_lowered_components:
  "hasMatchingSeverity ToLower templateSeverity allowedSeverities \<longleftrightarrow>
     (\<exists>l \<in> set (map (\<lambda>s. map ToLower (strings_Split s comma)) allowedSeverities).
        \<exists>x \<in> set l. x \<noteq> [] \<and> prefix x templateSeverity)"
  by (auto simp: hasMatchingSeverity_components)

lemma hasMatchingSeverity_lowered:
  "map (\<lambda>s. map ToLower (strings_Split s comma)) allowed' =
     map (\<lambda>s. map ToLower (strings_Split s comma)) allowedSeverities \<Longrightarrow>
   hasMatchingSeverity ToLower templateSeverity allowed' =
     hasMatchingSeverity ToLower templateSeverity allowedSeverities"
  by (simp only: hasMatchingSeverity_lowered_components)

subsection \<open>One pass of the loop\<close>

lemma TemplateType_distinct:
  "Template \<noteq> Workflows" "Template \<noteq> AdvancedWorkflow" "Workflows \<noteq> AdvancedWorkflow"
  by (simp_all add: Template_def Workflows_def AdvancedWorkflow_def)

lemma parsedTemplates_storeBySeverity:
  "parsedTemplates (storeBySeverity r severities t st) =
     (if severityFilter r severities t then (parsedTemplates st)(ID t \<mapsto> t)
      else parsedTemplates st)"
  by (simp add: storeBySeverity_def severityFilter_def Let_def)

lemma workflowCount_storeBySeverity:
  "workflowCount (storeBySeverity r severities t st) = workflowCount st"
  by (simp add: storeBySeverity_def Let_def)

lemma parsedTemplates_loadTemplate:
  "parsedTemplates (loadTemplate r severities templateType path st) =
     (case accepted r severities templateType path of
        None \<Rightarrow> parsedTemplates st
      | Some t \<Rightarrow> (parsedTemplates st)(ID t \<mapsto> t))"
  by (simp add: loadTemplate_def accepted_def typeFilter_def parsedTemplates_storeBySeverity
      TemplateType_distinct split: sum.splits option.splits)

lemma workflowCount_loadTemplate:
  "workflowCount (loadTemplate r severities templateType path st) =
     workflowCount st + (if countedWorkflow r templateType path then 1 else 0)"
  by (simp add: loadTemplate_def countedWorkflow_def workflowCount_storeBySeverity
      TemplateType_distinct split: sum.splits option.splits)

lemma logged_loadTemplate:
  "\<exists>new. logged (loadTemplate r severities templateType path st) = logged st @ new"
  by (simp add: loadTemplate_def storeBySeverity_def Let_def split: sum.splits option.splits)

lemma logged_loadTemplate_error:
  "parseTemplateFile r path = Inl err \<Longrightarrow>
   logged (loadTemplate r severities templateType path st) =
     logged st @ [Warning_Could_not_parse_file path err]"
  by (simp add: loadTemplate_def)

lemma accepted_error:
  "parseTemplateFile r path = Inl err \<Longrightarrow> accepted r severities templateType path = None"
  by (simp add: accepted_def)

lemma accepted_filters:
  "accepted r severities templateType path = Some t \<Longrightarrow>
     parseTemplateFile r path = Inr (Some t) \<and> typeFilter templateType t \<and>
     severityFilter r severities t"
  by (auto simp: accepted_def split: sum.splits option.splits if_splits)

subsection \<open>The whole loop\<close>

lemma loadTemplates_append:
  "loadTemplates r severities templateType (xs @ ys) st =
     loadTemplates r severities templateType ys (loadTemplates r severities templateType xs st)"
  by (induction xs arbitrary: st) simp_all

lemma parsedTemplates_loadTemplates:
  "parsedTemplates (loadTemplates r severities templateType paths st) =
     parsedTemplates st ++ map_of (rev (storedEntries r severities templateType paths))"
proof (induction paths arbitrary: st)
  case Nil
  show ?case by simp
next
  case (Cons p paths)
  show ?case
  proof (cases "accepted r severities templateType p")
    case None
    then show ?thesis
      by (simp add: Cons.IH parsedTemplates_loadTemplate)
  next
    case (Some t)
    have "parsedTemplates (loadTemplate r severities templateType p st) =
        (parsedTemplates st)(ID t \<mapsto> t)"
      by (simp add: parsedTemplates_loadTemplate Some)
    then show ?thesis
      by (simp add: Cons.IH Some map_add_upd_left del: fun_upd_apply)
  qed
qed

lemma workflowCount_loadTemplates:
  "workflowCount (loadTemplates r severities templateType paths st) =
     workflowCount st + length (filter (countedWorkflow r templateType) paths)"
  by (induction paths arbitrary: st) (simp_all add: workflowCount_loadTemplate)

lemma logged_loadTemplates:
  "\<exists>new. logged (loadTemplates r severities templateType paths st) = logged st @ new"
proof (induction paths arbitrary: st)
  case Nil
  show ?case by simp
next
  case (Cons p paths)
  obtain a where a: "logged (loadTemplate r severities templateType p st) = logged st @ a"
    using logged_loadTemplate by blast
  obtain b where "logged (loadTemplates r severities templateType paths
      (loadTemplate r severities templateType p st)) =
      logged (loadTemplate r severities templateType p st) @ b"
    using Cons.IH by blast
  with a show ?case by simp
qed

lemma logged_loadTemplates_error:
  assumes "p \<in> set paths" and "parseTemplateFile r p = Inl err"
  shows "Warning_Could_not_parse_file p err
           \<in> set (logged (loadTemplates r severities templateType paths st))"
proof -
  from assms(1) obtain xs ys where paths: "paths = xs @ p # ys"
    by (auto simp: in_set_conv_decomp)
  let ?st1 = "loadTemplates r severities templateType xs st"
  let ?st2 = "loadTemplate r severities templateType p ?st1"
  have "Warning_Could_not_parse_file p err \<in> set (logged ?st2)"
    by (simp add: logged_loadTemplate_error [OF assms(2)])
  moreover obtain new where
    "logged (loadTemplates r severities templateType ys ?st2) = logged ?st2 @ new"
    using logged_loadTemplates by blast
  ultimately show ?thesis
    by (simp add: paths loadTemplates_append)
qed

subsection \<open>What the loop stores\<close>

lemma storedEntries_append:
  "storedEntries r severities templateType (xs @ ys) =
     storedEntries r severities templateType xs @ storedEntries r severities templateType ys"
  by (induction xs) (simp_all split: option.splits)

lemma storedEntries_accepted:
  "(k, t) \<in> set (storedEntries r severities templateType paths) \<Longrightarrow>
     k = ID t \<and> (\<exists>p \<in> set paths. accepted r severities templateType p = Some t)"
  by (induction paths) (auto split: option.splits)

lemma storedEntries_parsed_only:
  "storedEntries r severities templateType
       (filter (\<lambda>p. \<not> isl (parseTemplateFile r p)) paths) =
   storedEntries r severities templateType paths"
proof (induction paths)
  case Nil
  show ?case by simp
next
  case (Cons p paths)
  show ?case
  proof (cases "parseTemplateFile r p")
    case (Inl err)
    then show ?thesis
      by (simp add: Cons.IH accepted_error)
  next
    case (Inr u)
    then show ?thesis
      by (simp add: Cons.IH split: option.splits)
  qed
qed

lemma countedWorkflow_parsed_only:
  "filter (countedWorkflow r templateType) (filter (\<lambda>p. \<not> isl (parseTemplateFile r p)) paths) =
   filter (countedWorkflow r templateType) paths"
proof -
  have "countedWorkflow r templateType p \<Longrightarrow> \<not> isl (parseTemplateFile r p)" for p
    by (cases "parseTemplateFile r p") (simp_all add: countedWorkflow_def)
  then show ?thesis
    by (induction paths) auto
qed

lemma parsedTemplates_getParsedTemplatesFor:
  "parsedTemplates (getParsedTemplatesFor r paths severities templateType) =
     map_of (rev (storedEntries r severities templateType paths))"
  by (simp add: getParsedTemplatesFor_def parsedTemplates_loadTemplates)

lemma workflowCount_getParsedTemplatesFor:
  "workflowCount (getParsedTemplatesFor r paths severities templateType) =
     length (filter (countedWorkflow r templateType) paths)"
  by (simp add: getParsedTemplatesFor_def workflowCount_loadTemplates)

lemma parsedTemplates_accepted:
  assumes "parsedTemplates (getParsedTemplatesFor r paths severities templateType) k = Some t"
  shows "k = ID t \<and> (\<exists>p \<in> set paths. accepted r severities templateType p = Some t)"
proof -
  from assms have "(k, t) \<in> set (storedEntries r severities templateType paths)"
    by (auto simp: parsedTemplates_getParsedTemplatesFor dest: map_of_SomeD)
  then show ?thesis
    by (rule storedEntries_accepted)
qed

lemma last_accepted_stored:
  assumes "accepted r severities templateType p = Some t"
    and "\<forall>q \<in> set after. \<forall>t'. accepted r severities templateType q = Some t' \<longrightarrow> ID t' \<noteq> ID t"
  shows "parsedTemplates (getParsedTemplatesFor r (before @ p # after) severities templateType)
           (ID t) = Some t"
proof -
  have "ID t \<notin> fst ` set (storedEntries r severities templateType after)"
  proof
    assume "ID t \<in> fst ` set (storedEntries r severities templateType after)"
    then obtain t' where "(ID t, t') \<in> set (storedEntries r severities templateType after)"
      by auto
    then obtain q where "q \<in> set after" and "accepted r severities templateType q = Some t'"
      and "ID t = ID t'"
      using storedEntries_accepted by meson
    with assms(2) show False by auto
  qed
  then have "map_of (rev (storedEntries r severities templateType after)) (ID t) = None"
    by (simp add: map_of_eq_None_iff)
  then show ?thesis
    using assms(1)
    by (simp add: parsedTemplates_getParsedTemplatesFor storedEntries_append map_add_def)
qed

text \<open>Unfolding the loader and the demo directory, to run them.\<close>

lemmas run_loader =
  getParsedTemplatesFor_def loadTemplate_def storeBySeverity_def Let_def

lemmas run_demo =
  demo_Runner_def demo_Parse_def demo_template_def demo_ToString_def
  parseTemplateFile_def accepted_def typeFilter_def severityFilter_def countedWorkflow_def
  finalSeverities_def comma_def ascii_ToLower_def ascii_lower_char_def
  Template_def Workflows_def AdvancedWorkflow_def

subsection \<open>The claims about the loader\<close>

text \<open>
  C4.  \<open>hasMatchingSeverity\<close> returns true iff some entry of \<open>allowedSeverities\<close>, split at its
  commas, has a component that is non-empty once lowercased and is then a prefix of
  \<open>templateSeverity\<close>.  So an empty component matches nothing and a part of a word (\<open>crit\<close>)
  matches the word (\<open>critical\<close>).  The allowed side enters through its lowercased components
  only: two lists of allowed severities with the same lowercased components give the same
  answer.
\<close>

theorem hasMatchingSeverity_iff:
  "(hasMatchingSeverity ToLower templateSeverity allowedSeverities \<longleftrightarrow>
      (\<exists>s \<in> set allowedSeverities. \<exists>c \<in> set (strings_Split s comma).
         ToLower c \<noteq> [] \<and> prefix (ToLower c) templateSeverity)) \<and>
   (\<forall>allowed'.
      map (\<lambda>s. map ToLower (strings_Split s comma)) allowed' =
        map (\<lambda>s. map ToLower (strings_Split s comma)) allowedSeverities \<longrightarrow>
      hasMatchingSeverity ToLower templateSeverity allowed' =
        hasMatchingSeverity ToLower templateSeverity allowedSeverities)"
proof (intro conjI allI impI)
  show "hasMatchingSeverity ToLower templateSeverity allowedSeverities \<longleftrightarrow>
      (\<exists>s \<in> set allowedSeverities. \<exists>c \<in> set (strings_Split s comma).
         ToLower c \<noteq> [] \<and> prefix (ToLower c) templateSeverity)"
  proof (induction allowedSeverities)
    case Nil
    show ?case by simp
  next
    case (Cons s rest)
    have "matchesFinalSeverities ToLower templateSeverity (finalSeverities s) \<longleftrightarrow>
        (\<exists>c \<in> set (strings_Split s comma).
           ToLower c \<noteq> [] \<and> prefix (ToLower c) templateSeverity)"
      by (simp add: matchesFinalSeverities_iff finalSeverities_eq)
    with Cons.IH show ?case
      by auto
  qed
next
  fix allowed'
  assume "map (\<lambda>s. map ToLower (strings_Split s comma)) allowed' =
        map (\<lambda>s. map ToLower (strings_Split s comma)) allowedSeverities"
  then show "hasMatchingSeverity ToLower templateSeverity allowed' =
        hasMatchingSeverity ToLower templateSeverity allowedSeverities"
    by (rule hasMatchingSeverity_lowered)
qed

theorem hasMatchingSeverity_iff_witness:
  "hasMatchingSeverity ascii_ToLower ''critical'' [''low'', ''High,CRIT''] \<and>
   \<not> hasMatchingSeverity ascii_ToLower ''critical'' ['','', [], ''critical-ish,low''] \<and>
   hasMatchingSeverity ascii_ToLower ''critical'' [''LOW,Crit''] =
     hasMatchingSeverity ascii_ToLower ''critical'' [''low,crit'']"
proof -
  note T1 = hasMatchingSeverity_iff [of ascii_ToLower "''critical''" "[''low'', ''High,CRIT'']",
      THEN conjunct1]
  note T2 = hasMatchingSeverity_iff
    [of ascii_ToLower "''critical''" "['','', [], ''critical-ish,low'']", THEN conjunct1]
  note T3 = hasMatchingSeverity_iff [of ascii_ToLower "''critical''" "[''low,crit'']",
      THEN conjunct2, THEN spec, of "[''LOW,Crit'']", THEN mp]
  have "hasMatchingSeverity ascii_ToLower ''critical'' [''low'', ''High,CRIT'']"
    unfolding T1 by (simp add: comma_def ascii_ToLower_def ascii_lower_char_def)
  moreover have "\<not> hasMatchingSeverity ascii_ToLower ''critical'' ['','', [], ''critical-ish,low'']"
    unfolding T2 by (simp add: comma_def ascii_ToLower_def ascii_lower_char_def)
  moreover have "hasMatchingSeverity ascii_ToLower ''critical'' [''LOW,Crit''] =
     hasMatchingSeverity ascii_ToLower ''critical'' [''low,crit'']"
    by (rule T3) (simp add: comma_def ascii_ToLower_def ascii_lower_char_def)
  ultimately show ?thesis
    by simp
qed

text \<open>
  C5.  Every template in the map that \<open>getParsedTemplatesFor\<close> returns satisfies the requested
  type filter: asked for \<open>Template\<close>, it has no workflows and no code; asked for \<open>Workflows\<close>, it
  has at least one workflow; asked for \<open>AdvancedWorkflow\<close>, its code is not empty.
\<close>

theorem parsedTemplates_satisfy_type_filter:
  "parsedTemplates (getParsedTemplatesFor r templatePaths severities templateType) k = Some t \<Longrightarrow>
     (templateType = Template \<longrightarrow> length (Workflows_field t) = 0 \<and> Code t = []) \<and>
     (templateType = Workflows \<longrightarrow> length (Workflows_field t) \<ge> 1) \<and>
     (templateType = AdvancedWorkflow \<longrightarrow> Code t \<noteq> [])"
proof -
  assume "parsedTemplates (getParsedTemplatesFor r templatePaths severities templateType) k = Some t"
  then obtain p where "accepted r severities templateType p = Some t"
    using parsedTemplates_accepted by blast
  then have "typeFilter templateType t"
    by (simp add: accepted_filters)
  then show ?thesis
    by (auto simp: typeFilter_def TemplateType_distinct Suc_le_eq split: if_splits)
qed

theorem parsedTemplates_satisfy_type_filter_witness:
  "parsedTemplates (getParsedTemplatesFor demo_Runner
      [''git-config.yaml'', ''wordpress-workflow.yaml'', ''advanced.yaml''] [] Workflows)
      ''wordpress-workflow'' = Some (demo_template ''wordpress-workflow'' ''WP'' ''info'' [1, 2] []) \<and>
   length (Workflows_field (demo_template ''wordpress-workflow'' ''WP'' ''info'' [1, 2] [])) \<ge> 1"
proof -
  have stored: "parsedTemplates (getParsedTemplatesFor demo_Runner
      [''git-config.yaml'', ''wordpress-workflow.yaml'', ''advanced.yaml''] [] Workflows)
      ''wordpress-workflow'' = Some (demo_template ''wordpress-workflow'' ''WP'' ''info'' [1, 2] [])"
    by (simp add: run_loader run_demo)
  from parsedTemplates_satisfy_type_filter [OF stored] stored show ?thesis
    by simp
qed

text \<open>
  C6.  \<open>workflowCount\<close> is the number of paths whose template parses and is of the requested
  workflow kind; the severities do not enter: each such path adds one to the count, whatever
  the severity filter then decides.  So the count can exceed the number of entries of the map:
  in the demo directory, asking for critical workflows counts one workflow, which the severity
  filter excludes, and stores none.
\<close>

theorem workflowCount_ignores_severity_filter:
  "workflowCount (getParsedTemplatesFor r templatePaths severities templateType) =
     length (filter (countedWorkflow r templateType) templatePaths) \<and>
   (\<forall>path st. countedWorkflow r templateType path \<longrightarrow>
      workflowCount (loadTemplate r severities templateType path st) = workflowCount st + 1) \<and>
   (\<not> severityFilter demo_Runner [''critical'']
        (demo_template ''wordpress-workflow'' ''WP'' ''info'' [1, 2] []) \<and>
    card (dom (parsedTemplates
      (getParsedTemplatesFor demo_Runner [''wordpress-workflow.yaml''] [''critical''] Workflows)))
    < workflowCount
      (getParsedTemplatesFor demo_Runner [''wordpress-workflow.yaml''] [''critical''] Workflows))"
proof (intro conjI allI impI)
  show "workflowCount (getParsedTemplatesFor r templatePaths severities templateType) =
     length (filter (countedWorkflow r templateType) templatePaths)"
    by (rule workflowCount_getParsedTemplatesFor)
next
  fix path st
  assume "countedWorkflow r templateType path"
  then show "workflowCount (loadTemplate r severities templateType path st) = workflowCount st + 1"
    by (simp add: workflowCount_loadTemplate)
next
  show "\<not> severityFilter demo_Runner [''critical'']
        (demo_template ''wordpress-workflow'' ''WP'' ''info'' [1, 2] [])"
    by (simp add: run_demo)
next
  have "parsedTemplates
     (getParsedTemplatesFor demo_Runner [''wordpress-workflow.yaml''] [''critical''] Workflows)
     = Map.empty"
    by (simp add: run_loader run_demo)
  moreover have "workflowCount
     (getParsedTemplatesFor demo_Runner [''wordpress-workflow.yaml''] [''critical''] Workflows) = 1"
    by (simp add: run_loader run_demo)
  ultimately show "card (dom (parsedTemplates
     (getParsedTemplatesFor demo_Runner [''wordpress-workflow.yaml''] [''critical''] Workflows)))
   < workflowCount
     (getParsedTemplatesFor demo_Runner [''wordpress-workflow.yaml''] [''critical''] Workflows)"
    by simp
qed

theorem workflowCount_ignores_severity_filter_witness:
  "countedWorkflow demo_Runner Workflows ''wordpress-workflow.yaml'' \<and>
   workflowCount (getParsedTemplatesFor demo_Runner
     [''advanced.yaml'', ''wordpress-workflow.yaml'', ''broken.yaml'', ''git-config.yaml'',
      ''wordpress-workflow.yaml''] [''high''] Workflows) = 2 \<and>
   workflowCount (loadTemplate demo_Runner [''high''] Workflows ''wordpress-workflow.yaml''
     \<lparr>parsedTemplates = Map.empty, workflowCount = 5, logged = []\<rparr>) = 6"
proof -
  note T = workflowCount_ignores_severity_filter [of demo_Runner
     "[''advanced.yaml'', ''wordpress-workflow.yaml'', ''broken.yaml'', ''git-config.yaml'',
      ''wordpress-workflow.yaml'']" "[''high'']" Workflows]
  have counted: "countedWorkflow demo_Runner Workflows ''wordpress-workflow.yaml''"
    by (simp add: run_demo)
  have "workflowCount (getParsedTemplatesFor demo_Runner
     [''advanced.yaml'', ''wordpress-workflow.yaml'', ''broken.yaml'', ''git-config.yaml'',
      ''wordpress-workflow.yaml''] [''high''] Workflows) = 2"
    unfolding T [THEN conjunct1] by (simp add: run_demo)
  moreover have "workflowCount (loadTemplate demo_Runner [''high''] Workflows
     ''wordpress-workflow.yaml''
     \<lparr>parsedTemplates = Map.empty, workflowCount = 5, logged = []\<rparr>) = 6"
    using T [THEN conjunct2, THEN conjunct1, THEN spec, THEN spec, THEN mp, OF counted,
        of "\<lparr>parsedTemplates = Map.empty, workflowCount = 5, logged = []\<rparr>"]
    by simp
  ultimately show ?thesis
    using counted by simp
qed

text \<open>
  C3, as the code has it.  A path that does not parse changes nothing but the log: the map and
  the count are those of the pass over the paths that parse, and every such path has its
  warning.  Every path that parses and passes the filters has its template in the map under the
  template's ID, unless a later path stores a template with the same ID: the map is keyed by
  ID, and the last template stored under an ID is the one kept.
\<close>

theorem getParsedTemplatesFor_skips_unparsable:
  "(parsedTemplates (getParsedTemplatesFor r templatePaths severities templateType) =
      parsedTemplates (getParsedTemplatesFor r
        (filter (\<lambda>p. \<not> isl (parseTemplateFile r p)) templatePaths) severities templateType) \<and>
    workflowCount (getParsedTemplatesFor r templatePaths severities templateType) =
      workflowCount (getParsedTemplatesFor r
        (filter (\<lambda>p. \<not> isl (parseTemplateFile r p)) templatePaths) severities templateType)) \<and>
   (\<forall>p \<in> set templatePaths. \<forall>err. parseTemplateFile r p = Inl err \<longrightarrow>
      Warning_Could_not_parse_file p err
        \<in> set (logged (getParsedTemplatesFor r templatePaths severities templateType))) \<and>
   (\<forall>before p after t.
      templatePaths = before @ p # after \<and>
      parseTemplateFile r p = Inr (Some t) \<and>
      typeFilter templateType t \<and> severityFilter r severities t \<and>
      (\<forall>q \<in> set after. \<forall>t'. accepted r severities templateType q = Some t' \<longrightarrow> ID t' \<noteq> ID t) \<longrightarrow>
      parsedTemplates (getParsedTemplatesFor r templatePaths severities templateType) (ID t)
        = Some t)"
proof (intro conjI ballI allI impI)
  show "parsedTemplates (getParsedTemplatesFor r templatePaths severities templateType) =
      parsedTemplates (getParsedTemplatesFor r
        (filter (\<lambda>p. \<not> isl (parseTemplateFile r p)) templatePaths) severities templateType)"
    by (simp add: parsedTemplates_getParsedTemplatesFor storedEntries_parsed_only)
next
  show "workflowCount (getParsedTemplatesFor r templatePaths severities templateType) =
      workflowCount (getParsedTemplatesFor r
        (filter (\<lambda>p. \<not> isl (parseTemplateFile r p)) templatePaths) severities templateType)"
    by (simp only: workflowCount_getParsedTemplatesFor countedWorkflow_parsed_only)
next
  fix p err
  assume "p \<in> set templatePaths" and "parseTemplateFile r p = Inl err"
  then show "Warning_Could_not_parse_file p err
      \<in> set (logged (getParsedTemplatesFor r templatePaths severities templateType))"
    by (simp add: getParsedTemplatesFor_def logged_loadTemplates_error)
next
  fix before p after t
  assume h: "templatePaths = before @ p # after \<and>
      parseTemplateFile r p = Inr (Some t) \<and>
      typeFilter templateType t \<and> severityFilter r severities t \<and>
      (\<forall>q \<in> set after. \<forall>t'. accepted r severities templateType q = Some t' \<longrightarrow> ID t' \<noteq> ID t)"
  then have "accepted r severities templateType p = Some t"
    by (simp add: accepted_def)
  with h show "parsedTemplates (getParsedTemplatesFor r templatePaths severities templateType)
      (ID t) = Some t"
    by (simp add: last_accepted_stored)
qed

theorem getParsedTemplatesFor_skips_unparsable_witness:
  "parseTemplateFile demo_Runner ''broken.yaml'' = Inl ''yaml: line 3: mapping values'' \<and>
   Warning_Could_not_parse_file ''broken.yaml'' ''yaml: line 3: mapping values''
     \<in> set (logged (getParsedTemplatesFor demo_Runner
         [''git-config.yaml'', ''broken.yaml'', ''rce.yaml''] [''crit,high''] Template)) \<and>
   parsedTemplates (getParsedTemplatesFor demo_Runner
       [''git-config.yaml'', ''broken.yaml'', ''rce.yaml''] [''crit,high''] Template) ''rce''
     = Some (demo_template ''rce'' ''RCE'' ''CRITICAL'' [] []) \<and>
   parsedTemplates (getParsedTemplatesFor demo_Runner
       [''git-config.yaml'', ''broken.yaml'', ''rce.yaml''] [''crit,high''] Template)
     = parsedTemplates (getParsedTemplatesFor demo_Runner
         [''git-config.yaml'', ''rce.yaml''] [''crit,high''] Template)"
proof -
  let ?paths = "[''git-config.yaml'', ''broken.yaml'', ''rce.yaml'']"
  let ?rce = "demo_template ''rce'' ''RCE'' ''CRITICAL'' [] []"
  note T = getParsedTemplatesFor_skips_unparsable
    [of demo_Runner ?paths "[''crit,high'']" Template]
  have broken: "parseTemplateFile demo_Runner ''broken.yaml''
      = Inl ''yaml: line 3: mapping values''"
    by (simp add: run_demo)
  have parsed: "filter (\<lambda>p. \<not> isl (parseTemplateFile demo_Runner p)) ?paths
      = [''git-config.yaml'', ''rce.yaml'']"
    by (simp add: run_demo)
  have rce: "parseTemplateFile demo_Runner ''rce.yaml'' = Inr (Some ?rce)"
    by (simp add: run_demo)
  have filters: "typeFilter Template ?rce \<and> severityFilter demo_Runner [''crit,high''] ?rce"
    by (simp add: run_demo)
  have id: "ID ?rce = ''rce''"
    by (simp add: demo_template_def)
  have "Warning_Could_not_parse_file ''broken.yaml'' ''yaml: line 3: mapping values''
     \<in> set (logged (getParsedTemplatesFor demo_Runner ?paths [''crit,high''] Template))"
    by (rule T [THEN conjunct2, THEN conjunct1, THEN bspec, THEN spec, THEN mp, OF _ broken])
       simp
  moreover
  have "?paths = [''git-config.yaml'', ''broken.yaml''] @ ''rce.yaml'' # [] \<and>
      parseTemplateFile demo_Runner ''rce.yaml'' = Inr (Some ?rce) \<and>
      typeFilter Template ?rce \<and> severityFilter demo_Runner [''crit,high''] ?rce \<and>
      (\<forall>q \<in> set []. \<forall>t'. accepted demo_Runner [''crit,high''] Template q = Some t'
          \<longrightarrow> ID t' \<noteq> ID ?rce)"
    using rce filters by simp
  then have "parsedTemplates (getParsedTemplatesFor demo_Runner ?paths [''crit,high''] Template)
      (ID ?rce) = Some ?rce"
    by (rule T [THEN conjunct2, THEN conjunct2, THEN spec, THEN spec, THEN spec, THEN spec,
          THEN mp])
  moreover
  have "parsedTemplates (getParsedTemplatesFor demo_Runner ?paths [''crit,high''] Template)
     = parsedTemplates (getParsedTemplatesFor demo_Runner
         [''git-config.yaml'', ''rce.yaml''] [''crit,high''] Template)"
    using T [THEN conjunct1, THEN conjunct1] by (simp only: parsed)
  ultimately show ?thesis
    using broken by (simp only: id simp_thms)
qed

text \<open>
  C3 as the claim states it fails: two files that carry the same ID both parse and both pass
  the filters, and the map holds the second one only.
\<close>

theorem parsedTemplates_same_ID_counterexample:
  "parseTemplateFile demo_Runner ''git-config.yaml''
     = Inr (Some (demo_template ''git-config'' ''Git config'' ''Medium'' [] [])) \<and>
   typeFilter Template (demo_template ''git-config'' ''Git config'' ''Medium'' [] []) \<and>
   severityFilter demo_Runner [] (demo_template ''git-config'' ''Git config'' ''Medium'' [] []) \<and>
   ran (parsedTemplates (getParsedTemplatesFor demo_Runner
         [''git-config.yaml'', ''copy-of-git-config.yaml''] [] Template))
     = {demo_template ''git-config'' ''Edited copy'' ''Medium'' [] []} \<and>
   demo_template ''git-config'' ''Git config'' ''Medium'' [] []
     \<noteq> demo_template ''git-config'' ''Edited copy'' ''Medium'' [] []"
proof -
  have "Info (demo_template ''git-config'' ''Git config'' ''Medium'' [] []) ''name''
      \<noteq> Info (demo_template ''git-config'' ''Edited copy'' ''Medium'' [] []) ''name''"
    by (simp add: demo_template_def)
  then have "demo_template ''git-config'' ''Git config'' ''Medium'' [] []
     \<noteq> demo_template ''git-config'' ''Edited copy'' ''Medium'' [] []"
    by metis
  moreover have "parsedTemplates (getParsedTemplatesFor demo_Runner
         [''git-config.yaml'', ''copy-of-git-config.yaml''] [] Template)
     = [''git-config'' \<mapsto> demo_template ''git-config'' ''Edited copy'' ''Medium'' [] []]"
    by (simp add: run_loader run_demo)
  ultimately show ?thesis
    by (simp add: run_demo)
qed

section \<open>Properties of the Match Expression Evaluator\<close>

lemma evaluate_each_eq:
  "evaluate_each matches ms rv (results, names) =
     (results @ map (\<lambda>m. matcher_fires matches m rv) ms,
      names @ map matcher_name (filter (\<lambda>m. matcher_fires matches m rv) ms))"
  by (induction ms arbitrary: results names) simp_all

lemma matcher_fires_no_conditions: "conditions m = [] \<Longrightarrow> \<not> matcher_fires matches m rv"
  by (simp add: matcher_fires_def split: option.splits)

lemmas run_matchers =
  matcher_fires_def conditions_hold_def word_matcher_def demo_response_def

text \<open>
  C2.  A matcher whose condition list is empty does not fire, whatever its combinator, its
  negate flag, the comparison of conditions and the Response View; evaluated on its own, it
  leaves the block not fired and adds no name.
\<close>

theorem matcher_without_conditions_never_fires:
  "conditions m = [] \<Longrightarrow>
     \<not> matcher_fires matches m rv \<and>
     evaluate_matchers matches [m] comb rv = \<lparr>fired = False, matchedNames = []\<rparr>"
  by (cases comb) (simp_all add: evaluate_matchers_def matcher_fires_no_conditions)

theorem matcher_without_conditions_never_fires_witness:
  "\<not> matcher_fires contains_word (word_matcher ''m'' ''body'' [] True Combine_OR) demo_response \<and>
   \<not> matcher_fires contains_word (word_matcher ''m'' ''body'' [] False Combine_AND) demo_response \<and>
   evaluate_matchers contains_word [word_matcher ''m'' ''body'' [] True Combine_AND] Combine_AND
     demo_response = \<lparr>fired = False, matchedNames = []\<rparr>"
proof -
  have none: "conditions (word_matcher ''m'' ''body'' [] neg comb) = []" for neg comb
    by (simp add: word_matcher_def)
  from matcher_without_conditions_never_fires [OF none, of contains_word _ _ demo_response Combine_AND]
  show ?thesis
    by blast
qed

text \<open>
  C8.  \<open>matchedNames\<close> lists the names of the matchers that fired, each once per firing matcher,
  in the order in which the matchers are declared: it is the list of matchers, filtered by
  firing, with the names read off, and so a subsequence of the declared names.
\<close>

theorem matchedNames_in_declaration_order:
  "matchedNames (evaluate_matchers matches matchers comb rv) =
     map matcher_name (filter (\<lambda>m. matcher_fires matches m rv) matchers) \<and>
   subseq (matchedNames (evaluate_matchers matches matchers comb rv)) (map matcher_name matchers)"
proof -
  let ?fired = "filter (\<lambda>m. matcher_fires matches m rv) matchers"
  have "matchedNames (evaluate_matchers matches matchers comb rv) =
      snd (evaluate_each matches matchers rv ([], []))"
    by (simp add: evaluate_matchers_def split: prod.splits)
  also have "\<dots> = map matcher_name ?fired"
    by (simp add: evaluate_each_eq)
  finally have names: "matchedNames (evaluate_matchers matches matchers comb rv) =
      map matcher_name ?fired" .
  have "subseq ?fired matchers"
    by simp
  then have "subseq (map matcher_name ?fired) (map matcher_name matchers)"
    by (rule subseq_map)
  with names show ?thesis
    by simp
qed

theorem matchedNames_in_declaration_order_witness:
  "matchedNames (evaluate_matchers contains_word
     [word_matcher ''zeta'' ''body'' [''admin''] False Combine_OR,
      word_matcher ''quiet'' ''body'' [''root''] False Combine_OR,
      word_matcher ''alpha'' ''header'' [''apache''] True Combine_OR,
      word_matcher ''lost'' ''cookie'' [''sid''] True Combine_OR,
      word_matcher ''mid'' ''header'' [''nginx'', ''Server''] False Combine_AND]
     Combine_AND demo_response) = [''zeta'', ''alpha'', ''mid'']"
  using matchedNames_in_declaration_order [of contains_word
     "[word_matcher ''zeta'' ''body'' [''admin''] False Combine_OR,
      word_matcher ''quiet'' ''body'' [''root''] False Combine_OR,
      word_matcher ''alpha'' ''header'' [''apache''] True Combine_OR,
      word_matcher ''lost'' ''cookie'' [''sid''] True Combine_OR,
      word_matcher ''mid'' ''header'' [''nginx'', ''Server''] False Combine_AND]"
     Combine_AND demo_response]
  by (simp add: run_matchers)

end
